theory Spec2Isabelle
  imports Complex_Main "HOL-Library.Word"
begin

section \<open>The visual cart-pole environment\<close>

text \<open>
  A shallow embedding of \<^verbatim>\<open>gym_cartpole_visual/envs/cartpole_visual_env.py\<close>
  (class \<^verbatim>\<open>CartPoleVisualEnv\<close>).

  Conventions of the model:
  \<^item> Python floats are idealised as \<^typ>\<open>real\<close>: rounding, infinities and NaN are not
    modelled. Python integers are \<^typ>\<open>int\<close>.
  \<^item> A method that mutates \<^verbatim>\<open>self\<close> takes the instance and returns it updated, together
    with its return value; an exception is the \<open>Inl\<close> of a sum, and the instance returned
    with it holds the mutations made before the raise.
  \<^item> The libraries the class calls are not part of the repository. The seeded generator
    (\<^verbatim>\<open>numpy.random.RandomState\<close>) is a stream of standard-normal variates with a read
    position; the stream that a seed gives is a parameter \<open>S\<close>. The values of
    \<^verbatim>\<open>randrange(2**32)\<close> and of \<^verbatim>\<open>np.random.uniform\<close> are inputs of the method that
    draws them. The picture that \<^verbatim>\<open>Viewer.render\<close> rasterises is returned as the scene
    handed to the viewer (the geometry objects with their colours and transforms).
\<close>

subsection \<open>Exceptions\<close>

datatype error =
    AssertionError   \<comment> \<open>the \<^verbatim>\<open>assert\<close> of \<^verbatim>\<open>step\<close>\<close>
  | TypeError        \<comment> \<open>unpacking \<^verbatim>\<open>self.state\<close> when it is \<^verbatim>\<open>None\<close>\<close>
  | AttributeError   \<comment> \<open>an attribute read on \<^verbatim>\<open>None\<close>, or an attribute not yet assigned\<close>
  | GymError         \<comment> \<open>\<^verbatim>\<open>seeding.np_random\<close> on a negative seed\<close>

subsection \<open>Constants assigned once in the constructor\<close>

definition gravity :: real where "gravity = 9.8"
definition masscart :: real where "masscart = 1.0"
definition masspole :: real where "masspole = 0.1"
definition total_mass :: real where "total_mass = masspole + masscart"
definition polelength :: real where "polelength = 5"
definition polewidth :: real where "polewidth = 5"
definition cartwidth :: real where "cartwidth = 20"
definition cartheight :: real where "cartheight = 10"
definition polemass_length :: real where "polemass_length = masspole * polelength"
definition force_mag :: real where "force_mag = 10"
definition tau :: real where "tau = 0.02"
definition kinematics_integrator :: string where "kinematics_integrator = ''euler''"
definition theta_threshold_radians :: real where
  "theta_threshold_radians = 12 * 2 * pi / 360"
definition x_threshold :: real where "x_threshold = 2.4"

subsection \<open>The seeded generator\<close>

record rng =
  rng_stream :: "nat \<Rightarrow> real"   \<comment> \<open>the standard-normal variates its seed determines\<close>
  rng_pos :: nat                   \<comment> \<open>how many of them have been drawn\<close>

text \<open>
  \<^verbatim>\<open>gym.utils.seeding.np_random(seed)\<close>: rejects a negative seed, reduces the seed to
  64 bits and returns a freshly seeded generator with the seed used.
\<close>

definition seeding_np_random :: "(int \<Rightarrow> nat \<Rightarrow> real) \<Rightarrow> int \<Rightarrow> error + (rng \<times> int)" where
  "seeding_np_random S sd =
     (if sd < 0 then Inl GymError
      else let sd' = sd mod 2 ^ 64
           in Inr (\<lparr>rng_stream = S sd', rng_pos = 0\<rparr>, sd'))"

text \<open>\<^verbatim>\<open>RandomState.normal(loc, scale, n)\<close>: the next \<open>n\<close> variates, scaled and shifted.\<close>

definition normal :: "rng \<Rightarrow> real \<Rightarrow> real \<Rightarrow> nat \<Rightarrow> real list \<times> rng" where
  "normal g loc scale n =
     (map (\<lambda>i. loc + scale * rng_stream g (rng_pos g + i)) [0..<n],
      g\<lparr>rng_pos := rng_pos g + n\<rparr>)"

text \<open>\<^verbatim>\<open>np.clip(a, a_min, a_max)\<close>, component-wise.\<close>

definition clip :: "real list \<Rightarrow> real \<Rightarrow> real \<Rightarrow> real list" where
  "clip a a_min a_max = map (\<lambda>v. min a_max (max v a_min)) a"

subsection \<open>The scene and the viewer\<close>

type_synonym point = "real \<times> real"
type_synonym rgb = "real \<times> real \<times> real"

record transform =
  translation :: point
  rotation :: real

text \<open>
  The attributes \<^verbatim>\<open>background\<close>, \<^verbatim>\<open>cart\<close>, \<^verbatim>\<open>carttrans\<close>, \<^verbatim>\<open>pole\<close>, \<^verbatim>\<open>poletrans\<close>,
  \<^verbatim>\<open>axle\<close> and \<^verbatim>\<open>track\<close>, which \<^verbatim>\<open>render\<close> assigns together when it builds a viewer.
  The viewer draws them in this order; cart, pole and axle share \<^verbatim>\<open>carttrans\<close>, pole
  and axle share \<^verbatim>\<open>poletrans\<close>.
\<close>

record geoms =
  background_v :: "point list"
  background_color :: rgb
  cart_v :: "point list"
  cart_color :: rgb
  carttrans :: transform
  pole_v :: "point list"
  pole_color :: rgb
  poletrans :: transform
  axle_radius :: real
  axle_color :: rgb
  track_ends :: "point \<times> point"
  track_color :: rgb

record viewer_obj =
  width :: nat
  height :: nat
  isopen :: bool

subsection \<open>The instance\<close>

type_synonym physical_state = "real \<times> real \<times> real \<times> real"

record env =
  offset :: int
  num_levels :: int
  seed :: int
  np_random :: rng
  viewer :: "nat option"            \<comment> \<open>the handle: an index into \<open>viewers\<close>\<close>
  viewers :: "viewer_obj list"      \<comment> \<open>the \<^verbatim>\<open>Viewer\<close> objects this instance has built\<close>
  state :: "physical_state option"
  steps_beyond_done :: "int option"
  polecolor :: "real list"
  cartcolor :: "real list"
  axlecolor :: "real list"
  trackcolor :: "real list"
  backgroundcolor :: "real list"
  geoms :: "geoms option"           \<comment> \<open>\<open>None\<close> until the first \<^verbatim>\<open>render\<close> assigns them\<close>

record step_result =
  img :: geoms
  reward :: real
  done_flag :: int                  \<comment> \<open>\<^verbatim>\<open>np.int64(done).astype(np.int32)\<close>\<close>
  level_seed :: "32 word"           \<comment> \<open>\<^verbatim>\<open>np.int32(self.seed)\<close>, which wraps\<close>
  warned :: bool                    \<comment> \<open>whether \<^verbatim>\<open>logger.warn\<close> was called\<close>

definition rgb_of :: "real list \<Rightarrow> rgb" where
  "rgb_of c = (c ! 0, c ! 1, c ! 2)"

definition seed_set :: "(int \<Rightarrow> nat \<Rightarrow> real) \<Rightarrow> env \<Rightarrow> int \<Rightarrow> (error + int) \<times> env" where
  "seed_set S e sd =
     (case seeding_np_random S sd of
        Inl err \<Rightarrow> (Inl err, e)
      | Inr (g, sd') \<Rightarrow> (Inr sd', e\<lparr>np_random := g\<rparr>))"

text \<open>
  The constructor; \<open>r\<close> is the value of \<^verbatim>\<open>randrange(2**32)\<close>, read when
  \<^verbatim>\<open>num_levels == 0\<close>.
\<close>

definition init :: "(int \<Rightarrow> nat \<Rightarrow> real) \<Rightarrow> int \<Rightarrow> int \<Rightarrow> int \<Rightarrow> error + env" where
  "init S r nl start_level =
     (case seeding_np_random S (if nl = 0 then r else start_level) of
        Inl err \<Rightarrow> Inl err
      | Inr (g, sd) \<Rightarrow>
          Inr \<lparr>offset = start_level, num_levels = nl, seed = sd, np_random = g,
               viewer = None, viewers = [], state = None, steps_beyond_done = None,
               polecolor = [0, 0, 1], cartcolor = [1, 1, 0], axlecolor = [1, 0, 1],
               trackcolor = [0, 1, 1], backgroundcolor = [1, 1, 1], geoms = None\<rparr>)"

definition build_viewer :: "env \<Rightarrow> env" where
  "build_viewer e =
     (let screen_width = 64; screen_height = 64;
          world_width = x_threshold * 2;
          scale = real screen_width / world_width;
          carty = 10;
          polelen = scale * 2 * polelength;
          (l, r, t, b) = (- cartwidth / 2, cartwidth / 2, cartheight / 2, - cartheight / 2);
          axleoffset = cartheight / 4.0;
          cart = [(l, b), (l, t), (r, t), (r, b)];
          (l, r, t, b) = (- polewidth / 2, polewidth / 2, polelen - polewidth / 2, - polewidth / 2);
          pole = [(l, b), (l, t), (r, t), (r, b)]
      in e\<lparr>viewer := Some (length (viewers e)),
           viewers := viewers e @ [\<lparr>width = screen_width, height = screen_height, isopen = True\<rparr>],
           geoms := Some
             \<lparr>background_v = [(0, 0), (0, 64), (64, 64), (64, 0)],
              background_color = rgb_of (backgroundcolor e),
              cart_v = cart,
              cart_color = rgb_of (cartcolor e),
              carttrans = \<lparr>translation = (0, 0), rotation = 0\<rparr>,
              pole_v = pole,
              pole_color = rgb_of (polecolor e),
              poletrans = \<lparr>translation = (0, axleoffset), rotation = 0\<rparr>,
              axle_radius = polewidth / 2,
              axle_color = rgb_of (axlecolor e),
              track_ends = ((0, carty), (real screen_width, carty)),
              track_color = rgb_of (trackcolor e)\<rparr>\<rparr>)"

definition render :: "env \<Rightarrow> (error + geoms option) \<times> env" where
  "render e =
     (let screen_width = 64;
          world_width = x_threshold * 2;
          scale = screen_width / world_width;
          carty = 10;
          e1 = (if viewer e = None then build_viewer e else e)
      in case state e1 of
           None \<Rightarrow> (Inr None, e1)
         | Some (x0, x1, x2, x3) \<Rightarrow>
             (case geoms e1 of
                None \<Rightarrow> (Inl AttributeError, e1)
              | Some gs \<Rightarrow>
                  let cartx = x0 * scale + screen_width / 2.0;
                      gs1 = gs\<lparr>carttrans := (carttrans gs)\<lparr>translation := (cartx, carty)\<rparr>\<rparr>;
                      gs2 = gs1\<lparr>poletrans := (poletrans gs1)\<lparr>rotation := - x2\<rparr>\<rparr>
                  in (Inr (Some gs2), e1\<lparr>geoms := Some gs2\<rparr>)))"

text \<open>\<^verbatim>\<open>self.render().astype(np.uint8)\<close>: the attribute read fails on \<^verbatim>\<open>None\<close>.\<close>

definition render_astype :: "env \<Rightarrow> (error + geoms) \<times> env" where
  "render_astype e =
     (case render e of
        (Inl err, e') \<Rightarrow> (Inl err, e')
      | (Inr None, e') \<Rightarrow> (Inl AttributeError, e')
      | (Inr (Some im), e') \<Rightarrow> (Inr im, e'))"

definition step :: "env \<Rightarrow> int \<Rightarrow> (error + step_result) \<times> env" where
  "step e action =
     (if \<not> (0 \<le> action \<and> action < 2) then (Inl AssertionError, e)
      else case state e of
        None \<Rightarrow> (Inl TypeError, e)
      | Some (x, x_dot, theta, theta_dot) \<Rightarrow>
          let force = (if action = 1 then force_mag else - force_mag);
              costheta = cos theta;
              sintheta = sin theta;
              temp = (force + polemass_length * theta_dot * theta_dot * sintheta) / total_mass;
              thetaacc = (gravity * sintheta - costheta * temp)
                / (polelength * (4.0 / 3.0 - masspole * costheta * costheta / total_mass));
              xacc = temp - polemass_length * thetaacc * costheta / total_mass;
              (x', x_dot', theta', theta_dot') =
                (if kinematics_integrator = ''euler''
                 then (x + tau * x_dot, x_dot + tau * xacc,
                       theta + tau * theta_dot, theta_dot + tau * thetaacc)
                 else let xd = x_dot + tau * xacc; td = theta_dot + tau * thetaacc
                      in (x + tau * xd, xd, theta + tau * td, td));
              e1 = e\<lparr>state := Some (x', x_dot', theta', theta_dot')\<rparr>;
              dn = (x' < - x_threshold \<or> x' > x_threshold
                    \<or> theta' < - theta_threshold_radians \<or> theta' > theta_threshold_radians);
              (rw, wn, e2) =
                (if \<not> dn then (1.0, False, e1)
                 else case steps_beyond_done e1 of
                   None \<Rightarrow> (1.0, False, e1\<lparr>steps_beyond_done := Some 0\<rparr>)
                 | Some n \<Rightarrow> (0.0, n = 0, e1\<lparr>steps_beyond_done := Some (n + 1)\<rparr>))
          in (case render_astype e2 of
                (Inl err, e3) \<Rightarrow> (Inl err, e3)
              | (Inr im, e3) \<Rightarrow>
                  (Inr \<lparr>img = im, reward = rw, done_flag = (if dn then 1 else 0),
                        level_seed = word_of_int (seed e3), warned = wn\<rparr>, e3)))"

definition change_color :: "env \<Rightarrow> (error + unit) \<times> env" where
  "change_color e =
     (let (c, g) = normal (np_random e) 0.5 0.5 3;
          e1 = e\<lparr>np_random := g, polecolor := clip c 0 1\<rparr>;
          (c, g) = normal (np_random e1) 0.5 0.5 3;
          e2 = e1\<lparr>np_random := g, cartcolor := clip c 0 1\<rparr>;
          (c, g) = normal (np_random e2) 0.5 0.5 3;
          e3 = e2\<lparr>np_random := g, axlecolor := clip c 0 1\<rparr>;
          (c, g) = normal (np_random e3) 0.5 0.5 3;
          e4 = e3\<lparr>np_random := g, trackcolor := clip c 0 1\<rparr>;
          (c, g) = normal (np_random e4) 0.5 0.5 3;
          e5 = e4\<lparr>np_random := g, backgroundcolor := clip c 0 1\<rparr>
      in case geoms e5 of
           None \<Rightarrow> (Inl AttributeError, e5)
         | Some gs \<Rightarrow>
             (Inr (), e5\<lparr>geoms := Some (gs\<lparr>pole_color := rgb_of (polecolor e5),
                                            axle_color := rgb_of (axlecolor e5),
                                            cart_color := rgb_of (cartcolor e5),
                                            track_color := rgb_of (trackcolor e5),
                                            background_color := rgb_of (backgroundcolor e5)\<rparr>)\<rparr>))"

text \<open>
  \<^verbatim>\<open>reset\<close>; \<open>r\<close> is the value of \<^verbatim>\<open>randrange(2**32)\<close>, read when \<^verbatim>\<open>num_levels == 0\<close>, and
  \<open>u\<close> the four values that \<^verbatim>\<open>np.random.uniform\<close> draws from the process-wide generator.
\<close>

definition reset :: "(int \<Rightarrow> nat \<Rightarrow> real) \<Rightarrow> int \<Rightarrow> physical_state \<Rightarrow> env \<Rightarrow> (error + geoms) \<times> env" where
  "reset S r u e =
     (case seed_set S e (if num_levels e = 0 then r else offset e) of
        (Inl err, e0) \<Rightarrow> (Inl err, e0)
      | (Inr sd, e0) \<Rightarrow>
          let e1 = e0\<lparr>seed := sd, state := Some u, steps_beyond_done := None\<rparr>
          in (case render_astype e1 of
                (Inl err, e2) \<Rightarrow> (Inl err, e2)
              | (Inr im0, e2) \<Rightarrow>
                  (case change_color e2 of
                     (Inl err, e3) \<Rightarrow> (Inl err, e3)
                   | (Inr _, e3) \<Rightarrow> render_astype e3)))"

text \<open>\<^verbatim>\<open>close\<close>: a \<^verbatim>\<open>Viewer\<close> object is truthy, so the test is \<^verbatim>\<open>self.viewer is not None\<close>.\<close>

definition close :: "env \<Rightarrow> env" where
  "close e =
     (case viewer e of
        None \<Rightarrow> e
      | Some h \<Rightarrow>
          e\<lparr>viewers := map (\<lambda>(i, v). if i = h then v\<lparr>isopen := False\<rparr> else v)
                          (zip [0..<length (viewers e)] (viewers e)),
            viewer := None\<rparr>)"

text \<open>A run of \<^verbatim>\<open>step\<close> calls; an exception ends it.\<close>

fun steps :: "env \<Rightarrow> int list \<Rightarrow> step_result list \<times> env" where
  "steps e [] = ([], e)"
| "steps e (a # as) =
     (case step e a of
        (Inl err, e') \<Rightarrow> ([], e')
      | (Inr r, e') \<Rightarrow> (case steps e' as of (rs, e'') \<Rightarrow> (r # rs, e'')))"

subsection \<open>The specification's physics engine\<close>

text \<open>
  The transition of the specification (section 4.1), written from its words and with its
  constants: explicit Euler with the accelerations of the state before the update.
\<close>

definition PhysicsEngine_step :: "physical_state \<Rightarrow> int \<Rightarrow> physical_state" where
  "PhysicsEngine_step s action =
     (case s of (x, x_dot, theta, theta_dot) \<Rightarrow>
        let g = 9.8; cartMass = 1.0; poleMass = 0.1; poleLength = 5; forceMag = 10.0; dt = 0.02;
            poleMassLength = poleMass * poleLength;
            totalMass = cartMass + poleMass;
            force = (if action = 1 then forceMag else - forceMag);
            costheta = cos theta; sintheta = sin theta;
            temp = (force + poleMassLength * theta_dot ^ 2 * sintheta) / totalMass;
            thetaAcc = (g * sintheta - costheta * temp)
              / (poleLength * (4 / 3 - poleMass * costheta ^ 2 / totalMass));
            xAcc = temp - poleMassLength * thetaAcc * costheta / totalMass
        in (x + dt * x_dot, x_dot + dt * xAcc, theta + dt * theta_dot, theta_dot + dt * thetaAcc))"

subsection \<open>Notions used in the statements and proofs\<close>

text \<open>The test of lines 124 to 127 of \<^verbatim>\<open>step\<close>, on a physical state.\<close>

definition terminal :: "physical_state \<Rightarrow> bool" where
  "terminal s =
     (case s of (x, x_dot, theta, theta_dot) \<Rightarrow>
        x < - x_threshold \<or> x > x_threshold
        \<or> theta < - theta_threshold_radians \<or> theta > theta_threshold_radians)"

definition next_steps_beyond_done :: "bool \<Rightarrow> int option \<Rightarrow> int option" where
  "next_steps_beyond_done dn sbd =
     (if dn then (case sbd of None \<Rightarrow> Some 0 | Some n \<Rightarrow> Some (n + 1)) else sbd)"

text \<open>What \<^verbatim>\<open>step\<close> does from line 123 on, once the new state is known.\<close>

definition step_tail :: "env \<Rightarrow> physical_state \<Rightarrow> (error + step_result) \<times> env" where
  "step_tail e s' =
     (case s' of (x', x_dot', theta', theta_dot') \<Rightarrow>
          let e1 = e\<lparr>state := Some (x', x_dot', theta', theta_dot')\<rparr>;
              dn = (x' < - x_threshold \<or> x' > x_threshold
                    \<or> theta' < - theta_threshold_radians \<or> theta' > theta_threshold_radians);
              (rw, wn, e2) =
                (if \<not> dn then (1.0, False, e1)
                 else case steps_beyond_done e1 of
                   None \<Rightarrow> (1.0, False, e1\<lparr>steps_beyond_done := Some 0\<rparr>)
                 | Some n \<Rightarrow> (0.0, n = 0, e1\<lparr>steps_beyond_done := Some (n + 1)\<rparr>))
          in (case render_astype e2 of
                (Inl err, e3) \<Rightarrow> (Inl err, e3)
              | (Inr im, e3) \<Rightarrow>
                  (Inr \<lparr>img = im, reward = rw, done_flag = (if dn then 1 else 0),
                        level_seed = word_of_int (seed e3), warned = wn\<rparr>, e3)))"

definition step_outcome :: "env \<Rightarrow> physical_state \<Rightarrow> int \<Rightarrow> (error + step_result) \<times> env" where
  "step_outcome e s a =
     (let s' = PhysicsEngine_step s a; dn = terminal s';
          e2 = e\<lparr>state := Some s', steps_beyond_done := next_steps_beyond_done dn (steps_beyond_done e)\<rparr>
      in (case render_astype e2 of
            (Inl err, e3) \<Rightarrow> (Inl err, e3)
          | (Inr im, e3) \<Rightarrow>
              (Inr \<lparr>img = im, reward = (if dn \<and> steps_beyond_done e \<noteq> None then 0 else 1),
                    done_flag = (if dn then 1 else 0),
                    level_seed = word_of_int (seed e3),
                    warned = (dn \<and> steps_beyond_done e = Some 0)\<rparr>, e3)))"

definition returned :: "(error + 'a) \<times> env \<Rightarrow> 'a option" where
  "returned p = (case fst p of Inl err \<Rightarrow> None | Inr v \<Rightarrow> Some v)"

definition cart_position :: "env \<Rightarrow> real option" where
  "cart_position e = map_option (\<lambda>(x, x_dot, theta, theta_dot). x) (state e)"

definition pole_angle :: "env \<Rightarrow> real option" where
  "pole_angle e = map_option (\<lambda>(x, x_dot, theta, theta_dot). theta) (state e)"

subsection \<open>Concrete instances\<close>

definition zero_stream :: "int \<Rightarrow> nat \<Rightarrow> real" where
  "zero_stream sd i = 0"

text \<open>The instance that \<open>init zero_stream 0 1 0\<close> builds.\<close>

definition fresh_env :: env where
  "fresh_env =
     \<lparr>offset = 0, num_levels = 1, seed = 0,
      np_random = \<lparr>rng_stream = zero_stream 0, rng_pos = 0\<rparr>,
      viewer = None, viewers = [], state = None, steps_beyond_done = None,
      polecolor = [0, 0, 1], cartcolor = [1, 1, 0], axlecolor = [1, 0, 1],
      trackcolor = [0, 1, 1], backgroundcolor = [1, 1, 1], geoms = None\<rparr>"

text \<open>Cart at rest in the middle, pole at rest and upright.\<close>

definition upright_env :: env where
  "upright_env = fresh_env\<lparr>state := Some (0, 0, 0, 0)\<rparr>"

text \<open>Cart at rest in the middle, pole at rest at \<open>4/15\<close> radians, between 12 and 24 degrees.\<close>

definition tilted_env :: env where
  "tilted_env = fresh_env\<lparr>state := Some (0, 0, 4 / 15, 0)\<rparr>"

text \<open>After termination was observed once, back at rest in the middle.\<close>

definition recovered_env :: env where
  "recovered_env = fresh_env\<lparr>state := Some (0, 0, 0, 0), steps_beyond_done := Some 0\<rparr>"

text \<open>Mid-episode: the cart just inside the right edge, drifting right; pole upright.\<close>

definition edge_env :: env where
  "edge_env = fresh_env\<lparr>state := Some (2.399, 0.1, 0, 0)\<rparr>"

text \<open>The cart beyond the right edge, at rest; pole upright.\<close>

definition far_env :: env where
  "far_env = fresh_env\<lparr>state := Some (3, 0, 0, 0)\<rparr>"

subsection \<open>Notions for the palette\<close>

text \<open>
  The \<open>i\<close>-th next variate of a generator, as a sample of Normal(0.5, 0.5) clipped to
  \<open>[0, 1]\<close>.
\<close>

definition clipped_draw :: "rng \<Rightarrow> nat \<Rightarrow> real" where
  "clipped_draw g i = min 1 (max (0.5 + 0.5 * rng_stream g (rng_pos g + i)) 0)"

text \<open>The instance after the first three assignments of \<^verbatim>\<open>reset\<close>, for a seed \<open>sd \<ge> 0\<close>.\<close>

definition reseeded :: "(int \<Rightarrow> nat \<Rightarrow> real) \<Rightarrow> int \<Rightarrow> physical_state \<Rightarrow> env \<Rightarrow> env" where
  "reseeded S sd u e =
     e\<lparr>np_random := \<lparr>rng_stream = S (sd mod 2 ^ 64), rng_pos = 0\<rparr>,
       seed := sd mod 2 ^ 64, state := Some u, steps_beyond_done := None\<rparr>"

text \<open>The five colours of a scene, and the five colour attributes of an instance.\<close>

definition scene_colors :: "geoms \<Rightarrow> rgb list" where
  "scene_colors gs =
     [pole_color gs, cart_color gs, axle_color gs, track_color gs, background_color gs]"

definition palette :: "env \<Rightarrow> real list list" where
  "palette e = [polecolor e, cartcolor e, axlecolor e, trackcolor e, backgroundcolor e]"

section \<open>Properties\<close>

lemmas constants_defs =
  gravity_def masscart_def masspole_def total_mass_def polelength_def polewidth_def
  cartwidth_def cartheight_def polemass_length_def force_mag_def tau_def
  kinematics_integrator_def theta_threshold_radians_def x_threshold_def

subsection \<open>Rendering leaves the episode alone\<close>

lemma build_viewer_fields:
  "state (build_viewer e) = state e"
  "steps_beyond_done (build_viewer e) = steps_beyond_done e"
  "seed (build_viewer e) = seed e"
  "np_random (build_viewer e) = np_random e"
  "offset (build_viewer e) = offset e"
  "num_levels (build_viewer e) = num_levels e"
  "polecolor (build_viewer e) = polecolor e"
  "cartcolor (build_viewer e) = cartcolor e"
  "axlecolor (build_viewer e) = axlecolor e"
  "trackcolor (build_viewer e) = trackcolor e"
  "backgroundcolor (build_viewer e) = backgroundcolor e"
  "viewer (build_viewer e) = Some (length (viewers e))"
  "geoms (build_viewer e) \<noteq> None"
  by (simp_all add: build_viewer_def Let_def)

lemma render_fields:
  "state (snd (render e)) = state e"
  "steps_beyond_done (snd (render e)) = steps_beyond_done e"
  "seed (snd (render e)) = seed e"
  "np_random (snd (render e)) = np_random e"
  "offset (snd (render e)) = offset e"
  "num_levels (snd (render e)) = num_levels e"
  "polecolor (snd (render e)) = polecolor e"
  "cartcolor (snd (render e)) = cartcolor e"
  "axlecolor (snd (render e)) = axlecolor e"
  "trackcolor (snd (render e)) = trackcolor e"
  "backgroundcolor (snd (render e)) = backgroundcolor e"
  by (simp_all add: render_def Let_def build_viewer_fields split: option.splits prod.splits)

lemma render_astype_fields:
  "state (snd (render_astype e)) = state e"
  "steps_beyond_done (snd (render_astype e)) = steps_beyond_done e"
  "seed (snd (render_astype e)) = seed e"
  "np_random (snd (render_astype e)) = np_random e"
  "offset (snd (render_astype e)) = offset e"
  "num_levels (snd (render_astype e)) = num_levels e"
  "polecolor (snd (render_astype e)) = polecolor e"
  "cartcolor (snd (render_astype e)) = cartcolor e"
  "axlecolor (snd (render_astype e)) = axlecolor e"
  "trackcolor (snd (render_astype e)) = trackcolor e"
  "backgroundcolor (snd (render_astype e)) = backgroundcolor e"
  using render_fields [of e]
  by (auto simp add: render_astype_def split: option.splits prod.splits sum.splits)

lemma physics_eq:
  "PhysicsEngine_step (x, x_dot, theta, theta_dot) a =
     (let force = (if a = 1 then force_mag else - force_mag);
          costheta = cos theta;
          sintheta = sin theta;
          temp = (force + polemass_length * theta_dot * theta_dot * sintheta) / total_mass;
          thetaacc = (gravity * sintheta - costheta * temp)
            / (polelength * (4.0 / 3.0 - masspole * costheta * costheta / total_mass));
          xacc = temp - polemass_length * thetaacc * costheta / total_mass
      in (x + tau * x_dot, x_dot + tau * xacc, theta + tau * theta_dot, theta_dot + tau * thetaacc))"
  unfolding PhysicsEngine_step_def Let_def constants_defs prod.case power2_eq_square
  apply (simp only: add.commute [of "1.0::real" "0.1"])
  apply (cases "a = 1")
  apply simp_all
  done

lemma step_as_tail:
  assumes "state e = Some (x, x_dot, theta, theta_dot)" "0 \<le> a" "a < 2"
  shows "step e a = step_tail e (PhysicsEngine_step (x, x_dot, theta, theta_dot) a)"
proof -
  have "step e a = step_tail e
     (let force = (if a = 1 then force_mag else - force_mag);
          costheta = cos theta;
          sintheta = sin theta;
          temp = (force + polemass_length * theta_dot * theta_dot * sintheta) / total_mass;
          thetaacc = (gravity * sintheta - costheta * temp)
            / (polelength * (4.0 / 3.0 - masspole * costheta * costheta / total_mass));
          xacc = temp - polemass_length * thetaacc * costheta / total_mass
      in (if kinematics_integrator = ''euler''
                 then (x + tau * x_dot, x_dot + tau * xacc,
                       theta + tau * theta_dot, theta_dot + tau * thetaacc)
                 else let xd = x_dot + tau * xacc; td = theta_dot + tau * thetaacc
                      in (x + tau * xd, xd, theta + tau * td, td)))"
    unfolding step_def step_tail_def Let_def
    by (simp only: assms simp_thms if_False option.case prod.case)
  also have "\<dots> = step_tail e (PhysicsEngine_step (x, x_dot, theta, theta_dot) a)"
    by (simp add: physics_eq kinematics_integrator_def)
  finally show ?thesis .
qed

lemma step_tail_eq:
  "step_tail e s' =
     (let dn = terminal s';
          e2 = e\<lparr>state := Some s', steps_beyond_done := next_steps_beyond_done dn (steps_beyond_done e)\<rparr>
      in (case render_astype e2 of
            (Inl err, e3) \<Rightarrow> (Inl err, e3)
          | (Inr im, e3) \<Rightarrow>
              (Inr \<lparr>img = im, reward = (if dn \<and> steps_beyond_done e \<noteq> None then 0 else 1),
                    done_flag = (if dn then 1 else 0),
                    level_seed = word_of_int (seed e3),
                    warned = (dn \<and> steps_beyond_done e = Some 0)\<rparr>, e3)))"
proof -
  obtain x' x_dot' theta' theta_dot' where s: "s' = (x', x_dot', theta', theta_dot')"
    by (cases s') auto
  have e_eq: "e\<lparr>state := Some s', steps_beyond_done := steps_beyond_done e\<rparr> = e\<lparr>state := Some s'\<rparr>"
    by simp
  show ?thesis
  proof (cases "terminal s'")
    case True
    then have "x' < - x_threshold \<or> x' > x_threshold
                    \<or> theta' < - theta_threshold_radians \<or> theta' > theta_threshold_radians"
      by (simp add: s terminal_def)
    then show ?thesis using True
      unfolding step_tail_def s prod.case Let_def
      by (cases "steps_beyond_done e")
         (simp_all add: next_steps_beyond_done_def split: prod.split sum.split)
  next
    case False
    then have "\<not> (x' < - x_threshold \<or> x' > x_threshold
                    \<or> theta' < - theta_threshold_radians \<or> theta' > theta_threshold_radians)"
      by (simp add: s terminal_def)
    then show ?thesis using False
      unfolding step_tail_def s prod.case Let_def
      by (simp add: next_steps_beyond_done_def e_eq split: prod.split sum.split)
  qed
qed

lemma step_unfold:
  "step e a =
     (if \<not> (0 \<le> a \<and> a < 2) then (Inl AssertionError, e)
      else case state e of
        None \<Rightarrow> (Inl TypeError, e)
      | Some s \<Rightarrow> step_outcome e s a)"
proof (cases "0 \<le> a \<and> a < 2")
  case False
  then show ?thesis by (simp add: step_def)
next
  case valid: True
  show ?thesis
  proof (cases "state e")
    case None
    then show ?thesis using valid by (simp add: step_def)
  next
    case (Some s)
    obtain x x_dot theta theta_dot where s: "s = (x, x_dot, theta, theta_dot)"
      by (cases s) auto
    have "step e a = step_tail e (PhysicsEngine_step s a)"
      using step_as_tail [of e x x_dot theta theta_dot a] Some valid by (simp add: s)
    then show ?thesis
      using Some valid by (simp add: step_tail_eq step_outcome_def Let_def)
  qed
qed

lemma snd_step_outcome:
  "snd (step_outcome e s a) =
     snd (render_astype (e\<lparr>state := Some (PhysicsEngine_step s a),
        steps_beyond_done := next_steps_beyond_done (terminal (PhysicsEngine_step s a))
          (steps_beyond_done e)\<rparr>))"
  by (simp add: step_outcome_def Let_def split: prod.split sum.split)

lemma step_outcome_env:
  "state (snd (step_outcome e s a)) = Some (PhysicsEngine_step s a)"
  "steps_beyond_done (snd (step_outcome e s a)) =
     next_steps_beyond_done (terminal (PhysicsEngine_step s a)) (steps_beyond_done e)"
  "seed (snd (step_outcome e s a)) = seed e"
  "np_random (snd (step_outcome e s a)) = np_random e"
  "offset (snd (step_outcome e s a)) = offset e"
  "num_levels (snd (step_outcome e s a)) = num_levels e"
  by (simp_all add: snd_step_outcome render_astype_fields)

lemma step_outcome_result:
  assumes "step_outcome e s a = (Inr r, e')"
  shows "done_flag r = (if terminal (PhysicsEngine_step s a) then 1 else 0)"
    and "reward r = (if terminal (PhysicsEngine_step s a) \<and> steps_beyond_done e \<noteq> None then 0 else 1)"
    and "warned r = (terminal (PhysicsEngine_step s a) \<and> steps_beyond_done e = Some 0)"
  using assms
  by (auto simp add: step_outcome_def Let_def split: prod.splits sum.splits)

lemma step_Inr:
  assumes "step e a = (Inr r, e')"
  obtains s where "state e = Some s" "0 \<le> a" "a < 2" "step_outcome e s a = (Inr r, e')"
  using assms by (auto simp add: step_unfold split: if_splits option.splits)

lemma render_astype_succeeds:
  assumes "state e = Some s" "viewer e = None \<or> geoms e \<noteq> None"
  shows "\<exists>im e'. render_astype e = (Inr im, e')"
  using assms
  by (cases s)
     (auto simp add: render_astype_def render_def Let_def build_viewer_fields
       split: option.splits prod.splits sum.splits)

lemma terminal_next:
  "terminal (PhysicsEngine_step (x, x_dot, theta, theta_dot) a) \<longleftrightarrow>
     x + 0.02 * x_dot < - 2.4 \<or> x + 0.02 * x_dot > 2.4
     \<or> theta + 0.02 * theta_dot < - (12 * pi / 180) \<or> theta + 0.02 * theta_dot > 12 * pi / 180"
  by (simp add: PhysicsEngine_step_def terminal_def Let_def x_threshold_def
      theta_threshold_radians_def)

lemma terminal_iff:
  "terminal (x, x_dot, theta, theta_dot) \<longleftrightarrow>
     x < - 2.4 \<or> x > 2.4 \<or> theta < - (12 * pi / 180) \<or> theta > 12 * pi / 180"
  by (simp add: terminal_def x_threshold_def theta_threshold_radians_def)

lemma step_succeeds:
  assumes "0 \<le> a" "a < 2" "state e = Some s" "viewer e = None \<or> geoms e \<noteq> None"
  shows "\<exists>r e'. step e a = (Inr r, e')"
proof -
  let ?e2 = "e\<lparr>state := Some (PhysicsEngine_step s a),
        steps_beyond_done := next_steps_beyond_done (terminal (PhysicsEngine_step s a))
          (steps_beyond_done e)\<rparr>"
  have "\<exists>im e'. render_astype ?e2 = (Inr im, e')"
    using assms(4) by (intro render_astype_succeeds [where s = "PhysicsEngine_step s a"]) simp_all
  then show ?thesis
    using assms(1-3) by (auto simp add: step_unfold step_outcome_def Let_def)
qed

subsection \<open>Termination test\<close>

text \<open>
  C1 (as amended). For every \<^verbatim>\<open>step\<close> call that returns, the returned flag is 1 if and
  only if the new state has \<open>x < -2.4\<close> or \<open>x > 2.4\<close> or \<open>theta < -threshold\<close> or
  \<open>theta > threshold\<close>, where the threshold is 12 degrees in radians
  (\<open>12 * 2 * pi / 360\<close>), and it is 0 otherwise.
\<close>

theorem C1_done_iff_beyond_thresholds:
  assumes "step e a = (Inr r, e')"
  shows "\<exists>x x_dot theta theta_dot.
           state e' = Some (x, x_dot, theta, theta_dot)
           \<and> (done_flag r = 1 \<longleftrightarrow>
                x < - 2.4 \<or> x > 2.4 \<or> theta < - (12 * pi / 180) \<or> theta > 12 * pi / 180)
           \<and> (done_flag r = 0 \<or> done_flag r = 1)"
proof -
  obtain s where s: "state e = Some s" "step_outcome e s a = (Inr r, e')"
    using assms by (rule step_Inr)
  obtain x x_dot theta theta_dot where n: "PhysicsEngine_step s a = (x, x_dot, theta, theta_dot)"
    by (cases "PhysicsEngine_step s a") auto
  have "state e' = Some (x, x_dot, theta, theta_dot)"
    using step_outcome_env(1) [of e s a] s(2) n by simp
  moreover have "done_flag r = (if terminal (x, x_dot, theta, theta_dot) then 1 else 0)"
    using step_outcome_result(1) [OF s(2)] n by simp
  ultimately show ?thesis
    by (auto simp add: terminal_iff)
qed

text \<open>
  C1 as stated, with a threshold of 24 degrees, fails: a pole at rest at \<open>4/15\<close> radians
  (between 12 and 24 degrees) over a cart at rest in the middle ends the episode.
\<close>

theorem C1_counterexample:
  "map_option done_flag (returned (step tilted_env 0)) = Some 1
   \<and> cart_position (snd (step tilted_env 0)) = Some 0
   \<and> pole_angle (snd (step tilted_env 0)) = Some (4 / 15)
   \<and> \<not> ((0::real) < - 2.4 \<or> (0::real) > 2.4
          \<or> (4 / 15 :: real) < - (24 * pi / 180) \<or> (4 / 15 :: real) > 24 * pi / 180)"
proof -
  have st: "state tilted_env = Some (0, 0, 4 / 15, 0)" "viewer tilted_env = None"
    by (simp_all add: tilted_env_def fresh_env_def)
  obtain r e' where step: "step tilted_env 0 = (Inr r, e')"
    using step_succeeds [of 0 tilted_env] st by auto
  have out: "step_outcome tilted_env (0, 0, 4 / 15, 0) 0 = (Inr r, e')"
    using step st by (simp add: step_unfold)
  have tm: "terminal (PhysicsEngine_step (0, 0, 4 / 15, 0) 0)"
    using pi_less_4 by (simp add: terminal_next)
  have "done_flag r = 1"
    using step_outcome_result(1) [OF out] tm by simp
  moreover have "state e' = Some (PhysicsEngine_step (0, 0, 4 / 15, 0) 0)"
    using step_outcome_env(1) [of tilted_env "(0, 0, 4 / 15, 0)" 0] out by simp
  then have "cart_position e' = Some 0" "pole_angle e' = Some (4 / 15)"
    by (simp_all add: cart_position_def pole_angle_def PhysicsEngine_step_def Let_def)
  moreover have "\<not> ((4 / 15 :: real) > 24 * pi / 180)"
    using pi_ge_two by simp
  ultimately show ?thesis
    using step pi_gt_zero by (simp add: returned_def)
qed

theorem C1_done_iff_beyond_thresholds_witness:
  "map_option done_flag (returned (step upright_env 1)) = Some 0
   \<and> cart_position (snd (step upright_env 1)) = Some 0
   \<and> pole_angle (snd (step upright_env 1)) = Some 0"
proof -
  have st: "state upright_env = Some (0, 0, 0, 0)" "viewer upright_env = None"
    by (simp_all add: upright_env_def fresh_env_def)
  obtain r e' where step: "step upright_env 1 = (Inr r, e')"
    using step_succeeds [of 1 upright_env] st by auto
  have "state e' = Some (PhysicsEngine_step (0, 0, 0, 0) 1)"
    using step_outcome_env(1) [of upright_env "(0, 0, 0, 0)" 1] step st by (simp add: step_unfold)
  then have pos: "cart_position e' = Some 0" "pole_angle e' = Some 0"
    by (simp_all add: cart_position_def pole_angle_def PhysicsEngine_step_def Let_def)
  then have "done_flag r = 0"
    using C1_done_iff_beyond_thresholds [OF step] pi_gt_zero
    by (auto simp add: cart_position_def pole_angle_def)
  then show ?thesis using step pos by (simp add: returned_def)
qed

subsection \<open>Physics\<close>

lemma step_state:
  assumes "0 \<le> a" "a < 2" "state e = Some s"
  shows "state (snd (step e a)) = Some (PhysicsEngine_step s a)"
  using assms by (simp add: step_unfold step_outcome_env)

text \<open>
  C2. For every physical state and every action in \<open>{0, 1}\<close>, \<^verbatim>\<open>step\<close> leaves the instance
  in the state that the specification's physics engine gives: force \<open>+10\<close> for action 1 and
  \<open>-10\<close> otherwise, \<open>temp\<close>, \<open>thetaAcc\<close> and \<open>xAcc\<close> computed at the state before the update,
  and explicit forward Euler with \<open>dt = 0.02\<close>.
\<close>

theorem C2_forward_euler:
  assumes "state e = Some (x, x_dot, theta, theta_dot)" and "a = 0 \<or> a = 1"
  shows "state (snd (step e a)) = Some (PhysicsEngine_step (x, x_dot, theta, theta_dot) a)"
  using assms step_state [of a e "(x, x_dot, theta, theta_dot)"] by auto

theorem C2_forward_euler_witness:
  "state upright_env = Some (0, 0, 0, 0)
   \<and> state (snd (step upright_env 1)) = Some (0, 8 / 41, 0, - 6 / 205)"
proof -
  have st: "state upright_env = Some (0, 0, 0, 0)"
    by (simp add: upright_env_def fresh_env_def)
  have "PhysicsEngine_step (0, 0, 0, 0) 1 = (0, 8 / 41, 0, - 6 / 205)"
    by (simp add: PhysicsEngine_step_def Let_def)
  then show ?thesis
    using C2_forward_euler [OF st, of 1] st by simp
qed

subsection \<open>Errors\<close>

text \<open>
  C8. For every action other than 0 and 1, \<^verbatim>\<open>step\<close> fails at its assertion: nothing is
  returned and the instance is unchanged.
\<close>

theorem C8_invalid_action:
  assumes "a \<noteq> 0" and "a \<noteq> 1"
  shows "step e a = (Inl AssertionError, e)"
  using assms by (auto simp add: step_def)

theorem C8_invalid_action_witness:
  "(2::int) \<noteq> 0 \<and> (2::int) \<noteq> 1 \<and> step upright_env 2 = (Inl AssertionError, upright_env)
   \<and> returned (step upright_env 2) = (None :: step_result option)"
  using C8_invalid_action [of 2 upright_env] by (simp add: returned_def)

subsection \<open>Reward and the count of steps beyond termination\<close>

text \<open>
  C9. The terminal test is recomputed at every call and not latched: when \<^verbatim>\<open>steps_beyond_done\<close>
  is already set and a step ends in a state with \<open>|x| \<le> 2.4\<close> and \<open>|theta|\<close> at most the
  angle threshold, the call returns done 0 and reward 1 and leaves \<^verbatim>\<open>steps_beyond_done\<close>
  as it was.
\<close>

theorem C9_done_not_latched:
  assumes "steps_beyond_done e = Some n"
    and "step e a = (Inr r, e')"
    and "state e' = Some (x, x_dot, theta, theta_dot)"
    and "\<bar>x\<bar> \<le> 2.4" and "\<bar>theta\<bar> \<le> 12 * 2 * pi / 360"
  shows "done_flag r = 0 \<and> reward r = 1 \<and> steps_beyond_done e' = Some n"
proof -
  obtain s where s: "state e = Some s" "step_outcome e s a = (Inr r, e')"
    using assms(2) by (rule step_Inr)
  have n: "PhysicsEngine_step s a = (x, x_dot, theta, theta_dot)"
    using step_outcome_env(1) [of e s a] s(2) assms(3) by simp
  have nt: "\<not> terminal (PhysicsEngine_step s a)"
    using assms(4,5) by (auto simp add: n terminal_iff)
  show ?thesis
    using step_outcome_result(1,2) [OF s(2)] step_outcome_env(2) [of e s a] s(2) nt assms(1)
    by (simp add: next_steps_beyond_done_def)
qed

theorem C9_done_not_latched_witness:
  "steps_beyond_done recovered_env = Some 0
   \<and> map_option done_flag (returned (step recovered_env 0)) = Some 0
   \<and> map_option reward (returned (step recovered_env 0)) = Some 1
   \<and> steps_beyond_done (snd (step recovered_env 0)) = Some 0"
proof -
  have st: "state recovered_env = Some (0, 0, 0, 0)" "viewer recovered_env = None"
    "steps_beyond_done recovered_env = Some 0"
    by (simp_all add: recovered_env_def fresh_env_def)
  obtain r e' where step: "step recovered_env 0 = (Inr r, e')"
    using step_succeeds [of 0 recovered_env] st by auto
  have "state e' = Some (PhysicsEngine_step (0, 0, 0, 0) 0)"
    using step_outcome_env(1) [of recovered_env "(0, 0, 0, 0)" 0] step st
    by (simp add: step_unfold)
  then have "state e' = Some (0, - 8 / 41, 0, 6 / 205)"
    by (simp add: PhysicsEngine_step_def Let_def)
  then show ?thesis
    using C9_done_not_latched [OF st(3) step, of 0 "- 8 / 41" 0 "6 / 205"] step st(3)
    by (simp add: returned_def)
qed

lemma render_astype_geoms:
  assumes "render_astype e = (Inr im, e')"
  shows "geoms e' \<noteq> None"
  using assms
  by (auto simp add: render_astype_def render_def Let_def
      split: option.splits prod.splits sum.splits if_splits)

lemma step_Inr_geoms:
  assumes "step e a = (Inr r, e')"
  shows "geoms e' \<noteq> None"
proof -
  obtain s where s: "step_outcome e s a = (Inr r, e')"
    using assms by (rule step_Inr)
  then show ?thesis
    by (auto simp add: step_outcome_def Let_def split: prod.splits sum.splits
        dest: render_astype_geoms)
qed

lemma step_Inr_facts:
  assumes "step e a = (Inr r, e')"
  shows "steps_beyond_done e' = next_steps_beyond_done (done_flag r = 1) (steps_beyond_done e)"
    and "reward r = (if done_flag r = 1 \<and> steps_beyond_done e \<noteq> None then 0 else 1)"
    and "done_flag r = 0 \<or> done_flag r = 1"
proof -
  obtain s where s: "state e = Some s" "step_outcome e s a = (Inr r, e')"
    using assms by (rule step_Inr)
  show "steps_beyond_done e' = next_steps_beyond_done (done_flag r = 1) (steps_beyond_done e)"
    using step_outcome_result(1) [OF s(2)] step_outcome_env(2) [of e s a] s(2) by simp
  show "reward r = (if done_flag r = 1 \<and> steps_beyond_done e \<noteq> None then 0 else 1)"
    using step_outcome_result(1,2) [OF s(2)] by simp
  show "done_flag r = 0 \<or> done_flag r = 1"
    using step_outcome_result(1) [OF s(2)] by simp
qed

lemma steps_Cons_Inr:
  assumes "steps e (a # as) = (rs, e')" "rs \<noteq> []"
  obtains r e1 rs' where "step e a = (Inr r, e1)" "steps e1 as = (rs', e')" "rs = r # rs'"
  using assms by (auto split: prod.splits sum.splits)

lemma steps_done_flag:
  assumes "steps e as = (rs, e')" "i < length rs"
  shows "done_flag (rs ! i) = 0 \<or> done_flag (rs ! i) = 1"
  using assms
proof (induction as arbitrary: e rs i)
  case Nil
  then show ?case by simp
next
  case (Cons a as)
  from Cons.prems have "rs \<noteq> []" by auto
  with Cons.prems(1) obtain r e1 rs' where
    st: "step e a = (Inr r, e1)" "steps e1 as = (rs', e')" "rs = r # rs'"
    by (rule steps_Cons_Inr)
  show ?case
  proof (cases i)
    case 0
    then show ?thesis using step_Inr_facts(3) [OF st(1)] st(3) by simp
  next
    case (Suc i')
    then show ?thesis using Cons.IH [OF st(2), of i'] Cons.prems(2) st(3) by simp
  qed
qed

lemma steps_reward:
  assumes "steps e as = (rs, e')" "i < length rs"
  shows "reward (rs ! i) =
     (if done_flag (rs ! i) = 1
         \<and> (steps_beyond_done e \<noteq> None \<or> (\<exists>j<i. done_flag (rs ! j) = 1))
      then 0 else 1)"
  using assms
proof (induction as arbitrary: e rs i)
  case Nil
  then show ?case by simp
next
  case (Cons a as)
  from Cons.prems have "rs \<noteq> []" by auto
  with Cons.prems(1) obtain r e1 rs' where
    st: "step e a = (Inr r, e1)" "steps e1 as = (rs', e')" "rs = r # rs'"
    by (rule steps_Cons_Inr)
  show ?case
  proof (cases i)
    case 0
    then show ?thesis using step_Inr_facts(2) [OF st(1)] st(3) by simp
  next
    case (Suc i')
    have sbd: "steps_beyond_done e1 \<noteq> None \<longleftrightarrow> steps_beyond_done e \<noteq> None \<or> done_flag r = 1"
      using step_Inr_facts(1) [OF st(1)]
      by (auto simp add: next_steps_beyond_done_def split: option.splits)
    have ex: "(\<exists>j<Suc i'. done_flag ((r # rs') ! j) = 1)
        \<longleftrightarrow> done_flag r = 1 \<or> (\<exists>j<i'. done_flag (rs' ! j) = 1)"
      by (auto simp add: less_Suc_eq_0_disj)
    have "reward (rs' ! i') =
       (if done_flag (rs' ! i') = 1
           \<and> (steps_beyond_done e1 \<noteq> None \<or> (\<exists>j<i'. done_flag (rs' ! j) = 1))
        then 0 else 1)"
      using Cons.IH [OF st(2), of i'] Cons.prems(2) st(3) Suc by simp
    then show ?thesis
      unfolding Suc st(3) sbd ex by auto
  qed
qed

text \<open>
  C3 (as amended). In a run of \<^verbatim>\<open>step\<close> calls that starts with \<^verbatim>\<open>steps_beyond_done\<close> unset and
  first reports done at call \<open>k\<close>, the reward is 1 on every call up to and including call
  \<open>k\<close>; on a later call it is 0 when that call reports done again and 1 when it does not.
\<close>

theorem C3_reward_sequence:
  assumes "steps_beyond_done e = None"
    and "steps e as = (rs, e')"
    and "k < length rs" and "done_flag (rs ! k) = 1" and "\<forall>j<k. done_flag (rs ! j) = 0"
    and "i < length rs"
  shows "reward (rs ! i) = (if i \<le> k \<or> done_flag (rs ! i) = 0 then 1 else 0)"
proof (cases "i \<le> k")
  case True
  then have "\<not> (\<exists>j<i. done_flag (rs ! j) = 1)"
    using assms(5) by auto
  then show ?thesis
    using steps_reward [OF assms(2,6)] assms(1) True by simp
next
  case False
  then have "\<exists>j<i. done_flag (rs ! j) = 1"
    using assms(4) by (intro exI [of _ k]) simp
  then show ?thesis
    using steps_reward [OF assms(2,6)] steps_done_flag [OF assms(2,6)] False by auto
qed

lemma physics_upright:
  "PhysicsEngine_step (x, x_dot, 0, theta_dot) 0
     = (x + x_dot / 50, x_dot - 8 / 41, theta_dot / 50, theta_dot + 6 / 205)"
  by (simp add: PhysicsEngine_step_def Let_def)

lemma step_Inr_state:
  assumes "step e a = (Inr r, e')" "state e = Some s"
  shows "state e' = Some (PhysicsEngine_step s a)"
    and "done_flag r = (if terminal (PhysicsEngine_step s a) then 1 else 0)"
proof -
  have out: "step_outcome e s a = (Inr r, e')"
    using assms by (auto elim!: step_Inr)
  show "state e' = Some (PhysicsEngine_step s a)"
    using step_outcome_env(1) [of e s a] out by simp
  show "done_flag r = (if terminal (PhysicsEngine_step s a) then 1 else 0)"
    using step_outcome_result(1) [OF out] by simp
qed

lemma run_two_pushes_left:
  assumes "state e = Some (x, x_dot, 0, 0)" "viewer e = None"
  obtains r1 e1 r2 e2 where
    "step e 0 = (Inr r1, e1)" "step e1 0 = (Inr r2, e2)"
    "steps e [0, 0] = ([r1, r2], e2)" "steps e [0] = ([r1], e1)"
    "done_flag r1 = (if terminal (x + x_dot / 50, x_dot - 8 / 41, 0, 6 / 205) then 1 else 0)"
    "done_flag r2 = (if terminal (x + x_dot / 50 + (x_dot - 8 / 41) / 50, x_dot - 8 / 41 - 8 / 41,
        6 / 205 / 50, 6 / 205 + 6 / 205) then 1 else 0)"
proof -
  obtain r1 e1 where s1: "step e 0 = (Inr r1, e1)"
    using step_succeeds [of 0 e] assms by auto
  have st1: "state e1 = Some (x + x_dot / 50, x_dot - 8 / 41, 0, 6 / 205)"
    using step_Inr_state(1) [OF s1 assms(1)] by (simp add: physics_upright)
  have "geoms e1 \<noteq> None"
    using s1 by (rule step_Inr_geoms)
  then obtain r2 e2 where s2: "step e1 0 = (Inr r2, e2)"
    using step_succeeds [of 0 e1] st1 by auto
  show ?thesis
  proof
    show "step e 0 = (Inr r1, e1)" by (fact s1)
    show "step e1 0 = (Inr r2, e2)" by (fact s2)
    show "steps e [0, 0] = ([r1, r2], e2)" using s1 s2 by simp
    show "steps e [0] = ([r1], e1)" using s1 by simp
    show "done_flag r1 = (if terminal (x + x_dot / 50, x_dot - 8 / 41, 0, 6 / 205) then 1 else 0)"
      using step_Inr_state(2) [OF s1 assms(1)] by (simp add: physics_upright)
    show "done_flag r2 = (if terminal (x + x_dot / 50 + (x_dot - 8 / 41) / 50, x_dot - 8 / 41 - 8 / 41,
        6 / 205 / 50, 6 / 205 + 6 / 205) then 1 else 0)"
      using step_Inr_state(2) [OF s2 st1] by (simp only: physics_upright)
  qed
qed

lemma edge_env_run:
  obtains r1 e1 r2 e2 where
    "steps edge_env [0, 0] = ([r1, r2], e2)" "steps edge_env [0] = ([r1], e1)"
    "done_flag r1 = 1" "done_flag r2 = 0" "reward r1 = 1" "reward r2 = 1"
    "steps_beyond_done e1 = Some 0" "steps_beyond_done e2 = Some 0"
proof -
  have st: "state edge_env = Some (2.399, 0.1, 0, 0)" "viewer edge_env = None"
    "steps_beyond_done edge_env = None"
    by (simp_all add: edge_env_def fresh_env_def)
  obtain r1 e1 r2 e2 where run:
    "step edge_env 0 = (Inr r1, e1)" "step e1 0 = (Inr r2, e2)"
    "steps edge_env [0, 0] = ([r1, r2], e2)" "steps edge_env [0] = ([r1], e1)"
    "done_flag r1 = (if terminal (2.399 + 0.1 / 50, 0.1 - 8 / 41, 0, 6 / 205) then 1 else 0)"
    "done_flag r2 = (if terminal (2.399 + 0.1 / 50 + (0.1 - 8 / 41) / 50, 0.1 - 8 / 41 - 8 / 41,
        6 / 205 / 50, 6 / 205 + 6 / 205) then 1 else 0)"
    using run_two_pushes_left [OF st(1,2)] by blast
  have d1: "done_flag r1 = 1"
    using run(5) by (simp add: terminal_iff)
  have d2: "done_flag r2 = 0"
    using run(6) pi_ge_two by (simp add: terminal_iff)
  have sbd1: "steps_beyond_done e1 = Some 0"
    using step_Inr_facts(1) [OF run(1)] d1 st(3) by (simp add: next_steps_beyond_done_def)
  have sbd2: "steps_beyond_done e2 = Some 0"
    using step_Inr_facts(1) [OF run(2)] d2 sbd1 by (simp add: next_steps_beyond_done_def)
  have "reward r1 = 1"
    using step_Inr_facts(2) [OF run(1)] st(3) by simp
  moreover have "reward r2 = 1"
    using step_Inr_facts(2) [OF run(2)] d2 by simp
  ultimately show ?thesis
    using that [OF run(3,4) d1 d2 _ _ sbd1 sbd2] by simp
qed

lemma far_env_run:
  obtains r1 e1 r2 e2 where
    "steps far_env [0, 0] = ([r1, r2], e2)" "steps far_env [0] = ([r1], e1)"
    "done_flag r1 = 1" "done_flag r2 = 1"
    "steps_beyond_done e1 = Some 0" "steps_beyond_done e2 = Some 1"
proof -
  have st: "state far_env = Some (3, 0, 0, 0)" "viewer far_env = None"
    "steps_beyond_done far_env = None"
    by (simp_all add: far_env_def fresh_env_def)
  obtain r1 e1 r2 e2 where run:
    "step far_env 0 = (Inr r1, e1)" "step e1 0 = (Inr r2, e2)"
    "steps far_env [0, 0] = ([r1, r2], e2)" "steps far_env [0] = ([r1], e1)"
    "done_flag r1 = (if terminal (3 + 0 / 50, 0 - 8 / 41, 0, 6 / 205) then 1 else 0)"
    "done_flag r2 = (if terminal (3 + 0 / 50 + (0 - 8 / 41) / 50, 0 - 8 / 41 - 8 / 41,
        6 / 205 / 50, 6 / 205 + 6 / 205) then 1 else 0)"
    using run_two_pushes_left [OF st(1,2)] by blast
  have d1: "done_flag r1 = 1"
    using run(5) by (simp add: terminal_iff)
  have d2: "done_flag r2 = 1"
    using run(6) by (simp add: terminal_iff)
  have sbd1: "steps_beyond_done e1 = Some 0"
    using step_Inr_facts(1) [OF run(1)] d1 st(3) by (simp add: next_steps_beyond_done_def)
  have sbd2: "steps_beyond_done e2 = Some 1"
    using step_Inr_facts(1) [OF run(2)] d2 sbd1 by (simp add: next_steps_beyond_done_def)
  show ?thesis
    using that [OF run(3,4) d1 d2 sbd1 sbd2] .
qed

text \<open>
  C3 as stated fails: from \<open>edge_env\<close> the first push to the left reports done (the cart
  crosses \<open>2.4\<close>), the second brings the cart back inside and is paid 1, not 0.
\<close>

theorem C3_counterexample:
  "steps_beyond_done edge_env = None
   \<and> map done_flag (fst (steps edge_env [0, 0])) = [1, 0]
   \<and> map reward (fst (steps edge_env [0, 0])) = [1, 1]"
proof -
  obtain r1 e1 r2 e2 where
    "steps edge_env [0, 0] = ([r1, r2], e2)"
    "done_flag r1 = 1" "done_flag r2 = 0" "reward r1 = 1" "reward r2 = 1"
    using edge_env_run by metis
  then show ?thesis
    by (simp add: edge_env_def fresh_env_def)
qed

theorem C3_reward_sequence_witness:
  "steps_beyond_done far_env = None
   \<and> map done_flag (fst (steps far_env [0, 0])) = [1, 1]
   \<and> map reward (fst (steps far_env [0, 0])) = [1, 0]"
proof -
  have sbd: "steps_beyond_done far_env = None"
    by (simp add: far_env_def fresh_env_def)
  obtain r1 e1 r2 e2 where run:
    "steps far_env [0, 0] = ([r1, r2], e2)" "done_flag r1 = 1" "done_flag r2 = 1"
    using far_env_run by metis
  have "reward ([r1, r2] ! 0) = 1"
    using C3_reward_sequence [OF sbd run(1), of 0 0] run(2) by simp
  moreover have "reward ([r1, r2] ! 1) = 0"
    using C3_reward_sequence [OF sbd run(1), of 0 1] run(2,3) by simp
  ultimately show ?thesis
    using run sbd by simp
qed

subsection \<open>Palette\<close>

lemma upt_3: "[0..<3] = [0, 1, 2]"
  by (simp add: upt_rec)

lemma clip_normal_3:
  "clip (fst (normal g (1 / 2) (1 / 2) 3)) 0 1 = map (clipped_draw g) [0, 1, 2]"
  unfolding normal_def clip_def clipped_draw_def upt_3 by simp

lemma snd_normal: "snd (normal g loc scale n) = g\<lparr>rng_pos := rng_pos g + n\<rparr>"
  by (simp add: normal_def)

lemma clipped_draw_shift:
  "clipped_draw (g\<lparr>rng_pos := rng_pos g + k\<rparr>) i = clipped_draw g (k + i)"
  "clipped_draw (g\<lparr>rng_pos := k + rng_pos g\<rparr>) i = clipped_draw g (k + i)"
  by (simp_all add: clipped_draw_def ac_simps)

lemma clipped_draw_range: "0 \<le> clipped_draw g i \<and> clipped_draw g i \<le> 1"
  by (simp add: clipped_draw_def)

lemma change_color_palette:
  "polecolor (snd (change_color e)) = map (clipped_draw (np_random e)) [0, 1, 2]"
  "cartcolor (snd (change_color e)) = map (clipped_draw (np_random e)) [3, 4, 5]"
  "axlecolor (snd (change_color e)) = map (clipped_draw (np_random e)) [6, 7, 8]"
  "trackcolor (snd (change_color e)) = map (clipped_draw (np_random e)) [9, 10, 11]"
  "backgroundcolor (snd (change_color e)) = map (clipped_draw (np_random e)) [12, 13, 14]"
  "np_random (snd (change_color e)) = (np_random e)\<lparr>rng_pos := rng_pos (np_random e) + 15\<rparr>"
  by (simp_all add: change_color_def split_def Let_def clip_normal_3 snd_normal
      clipped_draw_shift split: option.split)

lemma change_color_fields:
  "state (snd (change_color e)) = state e"
  "steps_beyond_done (snd (change_color e)) = steps_beyond_done e"
  "seed (snd (change_color e)) = seed e"
  "offset (snd (change_color e)) = offset e"
  "num_levels (snd (change_color e)) = num_levels e"
  "viewer (snd (change_color e)) = viewer e"
  "viewers (snd (change_color e)) = viewers e"
  by (simp_all add: change_color_def split_def Let_def split: option.split)

text \<open>
  C6. A palette roll takes the next 15 variates of the seeded generator, three for each
  colour in the order pole, cart, axle, track, background, each as a sample of
  Normal(0.5, 0.5) clipped to \<open>[0, 1]\<close>, and advances the generator's position by exactly 15.
\<close>

theorem C6_palette_roll:
  "polecolor (snd (change_color e)) = map (clipped_draw (np_random e)) [0, 1, 2]
   \<and> cartcolor (snd (change_color e)) = map (clipped_draw (np_random e)) [3, 4, 5]
   \<and> axlecolor (snd (change_color e)) = map (clipped_draw (np_random e)) [6, 7, 8]
   \<and> trackcolor (snd (change_color e)) = map (clipped_draw (np_random e)) [9, 10, 11]
   \<and> backgroundcolor (snd (change_color e)) = map (clipped_draw (np_random e)) [12, 13, 14]
   \<and> rng_pos (np_random (snd (change_color e))) = rng_pos (np_random e) + 15
   \<and> rng_stream (np_random (snd (change_color e))) = rng_stream (np_random e)
   \<and> (\<forall>i. 0 \<le> clipped_draw (np_random e) i \<and> clipped_draw (np_random e) i \<le> 1)"
  by (simp add: change_color_palette clipped_draw_range)

theorem C6_palette_roll_witness:
  "polecolor (snd (change_color fresh_env)) = [1 / 2, 1 / 2, 1 / 2]
   \<and> backgroundcolor (snd (change_color fresh_env)) = [1 / 2, 1 / 2, 1 / 2]
   \<and> rng_pos (np_random (snd (change_color fresh_env))) = 15"
proof -
  have g: "np_random fresh_env = \<lparr>rng_stream = zero_stream 0, rng_pos = 0\<rparr>"
    by (simp add: fresh_env_def)
  have c: "clipped_draw \<lparr>rng_stream = zero_stream 0, rng_pos = 0\<rparr> i = 1 / 2" for i
    by (simp add: clipped_draw_def zero_stream_def)
  show ?thesis
    using C6_palette_roll [of fresh_env] by (simp add: g c)
qed

subsection \<open>Closing\<close>

lemma close_fields:
  "viewer (close e) = None"
  "state (close e) = state e"
  "steps_beyond_done (close e) = steps_beyond_done e"
  "length (viewers (close e)) = length (viewers e)"
  by (simp_all add: close_def split: option.split)

text \<open>
  C10. \<^verbatim>\<open>close\<close> is idempotent: it clears the viewer handle, closes the viewer the handle
  named if there was one, changes nothing on an instance without a viewer, and a second
  call changes nothing more.
\<close>

theorem C10_close_idempotent:
  "close (close e) = close e
   \<and> viewer (close e) = None
   \<and> (viewer e = None \<longrightarrow> close e = e)
   \<and> (\<forall>h. viewer e = Some h \<and> h < length (viewers e)
          \<longrightarrow> \<not> isopen (viewers (close e) ! h))
   \<and> state (close e) = state e
   \<and> steps_beyond_done (close e) = steps_beyond_done e"
proof -
  have "close (close e) = close e"
    by (simp add: close_def [of "close e"] close_fields)
  moreover have "viewer e = None \<longrightarrow> close e = e"
    by (simp add: close_def)
  moreover have "\<forall>h. viewer e = Some h \<and> h < length (viewers e)
          \<longrightarrow> \<not> isopen (viewers (close e) ! h)"
    by (simp add: close_def)
  ultimately show ?thesis
    by (simp add: close_fields)
qed

subsection \<open>Before the first reset\<close>

lemma render_no_state:
  assumes "state e = None" "viewer e = None"
  shows "fst (render e) = Inr None"
    and "viewer (snd (render e)) = Some (length (viewers e))"
    and "viewers (snd (render e)) = viewers e @ [\<lparr>width = 64, height = 64, isopen = True\<rparr>]"
    and "state (snd (render e)) = None"
proof -
  have r: "render e = (Inr None, build_viewer e)"
    using assms by (simp add: render_def Let_def build_viewer_fields)
  show "fst (render e) = Inr None" by (simp add: r)
  show "viewer (snd (render e)) = Some (length (viewers e))"
    by (simp add: r build_viewer_fields)
  show "viewers (snd (render e)) = viewers e @ [\<lparr>width = 64, height = 64, isopen = True\<rparr>]"
    by (simp add: r build_viewer_def Let_def split_def)
  show "state (snd (render e)) = None"
    using assms by (simp add: r build_viewer_fields)
qed

lemma fresh_env_fields:
  "state fresh_env = None" "viewer fresh_env = None" "viewers fresh_env = []"
  "steps_beyond_done fresh_env = None"
  by (simp_all add: fresh_env_def)

theorem C10_close_idempotent_witness:
  "viewer (snd (render fresh_env)) = Some 0
   \<and> isopen (viewers (snd (render fresh_env)) ! 0)
   \<and> \<not> isopen (viewers (close (snd (render fresh_env))) ! 0)
   \<and> close (close (snd (render fresh_env))) = close (snd (render fresh_env))
   \<and> viewer fresh_env = None \<and> close fresh_env = fresh_env"
proof -
  have v: "viewer (snd (render fresh_env)) = Some 0"
    "viewers (snd (render fresh_env)) = [\<lparr>width = 64, height = 64, isopen = True\<rparr>]"
    using render_no_state(2,3) [of fresh_env] by (simp_all add: fresh_env_fields)
  show ?thesis
    using C10_close_idempotent [of "snd (render fresh_env)"] C10_close_idempotent [of fresh_env]
      v fresh_env_fields(2) by simp
qed

text \<open>
  C7 (as amended). On an instance fresh from the constructor, \<^verbatim>\<open>step\<close> with a valid action
  fails (unpacking the state \<^verbatim>\<open>None\<close> raises) and leaves the instance unchanged;
  \<^verbatim>\<open>render\<close> does not fail: it builds the viewer and returns \<^verbatim>\<open>None\<close>, no observation.
\<close>

theorem C7_fresh_instance:
  assumes "init S r nl start_level = Inr e" and "a = 0 \<or> a = 1"
  shows "step e a = (Inl TypeError, e)
         \<and> fst (render e) = Inr None
         \<and> viewer (snd (render e)) = Some 0
         \<and> state (snd (render e)) = None"
proof -
  have e: "state e = None" "viewer e = None" "viewers e = []"
    using assms(1) by (auto simp add: init_def split: sum.splits)
  have "step e a = (Inl TypeError, e)"
    using e(1) assms(2) by (auto simp add: step_unfold)
  then show ?thesis
    using render_no_state [OF e(1,2)] e(3) by simp
qed

text \<open>
  C7 as stated fails for \<^verbatim>\<open>render\<close>: on the fresh instance it returns \<^verbatim>\<open>None\<close> normally.
\<close>

theorem C7_counterexample:
  "init zero_stream 0 1 0 = Inr fresh_env \<and> fst (render fresh_env) = Inr None"
proof -
  have "init zero_stream 0 1 0 = Inr fresh_env"
    by (simp add: init_def seeding_np_random_def fresh_env_def)
  then show ?thesis
    using render_no_state(1) [of fresh_env] by (simp add: fresh_env_fields)
qed

theorem C7_fresh_instance_witness:
  "init zero_stream 0 1 0 = Inr fresh_env
   \<and> step fresh_env 1 = (Inl TypeError, fresh_env)
   \<and> fst (render fresh_env) = Inr None"
proof -
  have i: "init zero_stream 0 1 0 = Inr fresh_env"
    by (simp add: init_def seeding_np_random_def fresh_env_def)
  show ?thesis
    using C7_fresh_instance [OF i, of 1] i by simp
qed

subsection \<open>Reset\<close>

lemma reset_unfold:
  assumes "0 \<le> (if num_levels e = 0 then r else offset e)"
  shows "reset S r u e =
     (case render_astype (reseeded S (if num_levels e = 0 then r else offset e) u e) of
        (Inl err, e2) \<Rightarrow> (Inl err, e2)
      | (Inr im0, e2) \<Rightarrow>
          (case change_color e2 of
             (Inl err, e3) \<Rightarrow> (Inl err, e3)
           | (Inr _, e3) \<Rightarrow> render_astype e3))"
  using assms
  by (simp add: reset_def seed_set_def seeding_np_random_def Let_def reseeded_def)

lemma reset_negative_seed:
  assumes "(if num_levels e = 0 then r else offset e) < 0"
  shows "reset S r u e = (Inl GymError, e)"
  using assms by (simp add: reset_def seed_set_def seeding_np_random_def)

lemma reset_steps_beyond_done:
  assumes "0 \<le> (if num_levels e = 0 then r else offset e)"
  shows "steps_beyond_done (snd (reset S r u e)) = None"
proof -
  let ?e1 = "reseeded S (if num_levels e = 0 then r else offset e) u e"
  obtain res2 e2 where r2: "render_astype ?e1 = (res2, e2)"
    by (cases "render_astype ?e1") auto
  have e2: "steps_beyond_done e2 = None"
    using render_astype_fields(2) [of ?e1] r2 by (simp add: reseeded_def)
  show ?thesis
  proof (cases res2)
    case (Inl err)
    then show ?thesis using r2 e2 by (simp add: reset_unfold [OF assms])
  next
    case (Inr im0)
    obtain res3 e3 where r3: "change_color e2 = (res3, e3)"
      by (cases "change_color e2") auto
    have e3: "steps_beyond_done e3 = None"
      using change_color_fields(2) [of e2] r3 e2 by simp
    show ?thesis
    proof (cases res3)
      case (Inl err)
      then show ?thesis using r2 r3 e3 Inr by (simp add: reset_unfold [OF assms])
    next
      case Inr3: (Inr x)
      have "steps_beyond_done (snd (render_astype e3)) = None"
        using render_astype_fields(2) [of e3] e3 by simp
      then show ?thesis using r2 r3 Inr Inr3 by (simp add: reset_unfold [OF assms])
    qed
  qed
qed

lemma reset_Inr:
  assumes "reset S r u e = (Inr im, e')"
  defines "sd \<equiv> (if num_levels e = 0 then r else offset e)"
  shows "0 \<le> sd"
    and "seed e' = sd mod 2 ^ 64"
    and "polecolor e' = map (clipped_draw \<lparr>rng_stream = S (sd mod 2 ^ 64), rng_pos = 0\<rparr>) [0, 1, 2]"
    and "cartcolor e' = map (clipped_draw \<lparr>rng_stream = S (sd mod 2 ^ 64), rng_pos = 0\<rparr>) [3, 4, 5]"
    and "axlecolor e' = map (clipped_draw \<lparr>rng_stream = S (sd mod 2 ^ 64), rng_pos = 0\<rparr>) [6, 7, 8]"
    and "trackcolor e' = map (clipped_draw \<lparr>rng_stream = S (sd mod 2 ^ 64), rng_pos = 0\<rparr>) [9, 10, 11]"
    and "backgroundcolor e' = map (clipped_draw \<lparr>rng_stream = S (sd mod 2 ^ 64), rng_pos = 0\<rparr>) [12, 13, 14]"
    and "state e' = Some u"
proof -
  show nonneg: "0 \<le> sd"
  proof (rule ccontr)
    assume "\<not> 0 \<le> sd"
    then have "reset S r u e = (Inl GymError, e)"
      unfolding sd_def by (intro reset_negative_seed) simp
    then show False using assms(1) by simp
  qed
  let ?e1 = "reseeded S sd u e"
  have unf: "reset S r u e =
     (case render_astype ?e1 of
        (Inl err, e2) \<Rightarrow> (Inl err, e2)
      | (Inr im0, e2) \<Rightarrow>
          (case change_color e2 of
             (Inl err, e3) \<Rightarrow> (Inl err, e3)
           | (Inr _, e3) \<Rightarrow> render_astype e3))"
    using reset_unfold [of e r S u] nonneg unfolding sd_def by simp
  obtain res2 e2 where r2: "render_astype ?e1 = (res2, e2)"
    by (cases "render_astype ?e1") auto
  obtain res3 e3 where r3: "change_color e2 = (res3, e3)"
    by (cases "change_color e2") auto
  have last: "render_astype e3 = (Inr im, e')"
    using assms(1) r2 r3 unfolding unf by (cases res2; cases res3) simp_all
  have e2: "e2 = snd (render_astype ?e1)" using r2 by simp
  have e3: "e3 = snd (change_color e2)" using r3 by simp
  have e': "e' = snd (render_astype e3)" using last by simp
  have g: "np_random e2 = \<lparr>rng_stream = S (sd mod 2 ^ 64), rng_pos = 0\<rparr>"
    unfolding e2 by (simp add: render_astype_fields reseeded_def)
  show "seed e' = sd mod 2 ^ 64"
    unfolding e' e3 e2
    by (simp add: render_astype_fields change_color_fields reseeded_def)
  show "state e' = Some u"
    unfolding e' e3 e2
    by (simp add: render_astype_fields change_color_fields reseeded_def)
  show "polecolor e' = map (clipped_draw \<lparr>rng_stream = S (sd mod 2 ^ 64), rng_pos = 0\<rparr>) [0, 1, 2]"
    unfolding e' e3 by (simp only: render_astype_fields change_color_palette g)
  show "cartcolor e' = map (clipped_draw \<lparr>rng_stream = S (sd mod 2 ^ 64), rng_pos = 0\<rparr>) [3, 4, 5]"
    unfolding e' e3 by (simp only: render_astype_fields change_color_palette g)
  show "axlecolor e' = map (clipped_draw \<lparr>rng_stream = S (sd mod 2 ^ 64), rng_pos = 0\<rparr>) [6, 7, 8]"
    unfolding e' e3 by (simp only: render_astype_fields change_color_palette g)
  show "trackcolor e' = map (clipped_draw \<lparr>rng_stream = S (sd mod 2 ^ 64), rng_pos = 0\<rparr>) [9, 10, 11]"
    unfolding e' e3 by (simp only: render_astype_fields change_color_palette g)
  show "backgroundcolor e' = map (clipped_draw \<lparr>rng_stream = S (sd mod 2 ^ 64), rng_pos = 0\<rparr>) [12, 13, 14]"
    unfolding e' e3 by (simp only: render_astype_fields change_color_palette g)
qed

lemma change_color_succeeds:
  assumes "geoms e \<noteq> None"
  shows "\<exists>e'. change_color e = (Inr (), e')"
  using assms by (auto simp add: change_color_def split_def Let_def split: option.split)

lemma change_color_geoms:
  "geoms (snd (change_color e)) = None \<longleftrightarrow> geoms e = None"
  by (simp add: change_color_def split_def Let_def split: option.split)

lemma reset_succeeds:
  assumes "0 \<le> (if num_levels e = 0 then r else offset e)" "viewer e = None \<or> geoms e \<noteq> None"
  shows "\<exists>im e'. reset S r u e = (Inr im, e')"
proof -
  let ?e1 = "reseeded S (if num_levels e = 0 then r else offset e) u e"
  have "state ?e1 = Some u" "viewer ?e1 = None \<or> geoms ?e1 \<noteq> None"
    using assms(2) by (simp_all add: reseeded_def)
  then obtain im0 e2 where r2: "render_astype ?e1 = (Inr im0, e2)"
    using render_astype_succeeds [of ?e1 u] by auto
  have g2: "geoms e2 \<noteq> None"
    using r2 by (rule render_astype_geoms)
  then obtain e3 where r3: "change_color e2 = (Inr (), e3)"
    using change_color_succeeds [of e2] by auto
  have "state e2 = Some u"
    using render_astype_fields(1) [of ?e1] r2 by (simp add: reseeded_def)
  then have "state e3 = Some u"
    using change_color_fields(1) [of e2] r3 by simp
  moreover have "geoms e3 \<noteq> None"
    using change_color_geoms [of e2] r3 g2 by simp
  ultimately obtain im e' where "render_astype e3 = (Inr im, e')"
    using render_astype_succeeds [of e3 u] by auto
  then show ?thesis
    using r2 r3 by (simp add: reset_unfold [OF assms(1)])
qed

lemma step_fields:
  "offset (snd (step e a)) = offset e"
  "num_levels (snd (step e a)) = num_levels e"
  "seed (snd (step e a)) = seed e"
  "np_random (snd (step e a)) = np_random e"
  by (simp_all add: step_unfold step_outcome_env split: option.split)

lemma step_keeps_steps_beyond_done:
  assumes "steps_beyond_done e \<noteq> None"
  shows "steps_beyond_done (snd (step e a)) \<noteq> None"
  using assms
  by (auto simp add: step_unfold step_outcome_env next_steps_beyond_done_def
      split: option.splits)

text \<open>
  C4 (as amended). \<^verbatim>\<open>steps_beyond_done\<close> stays \<^verbatim>\<open>None\<close> over a step that does not report
  done, becomes 0 at the first step that reports done, is incremented by 1 by each later
  step that reports done again and left unchanged by one that does not; no \<^verbatim>\<open>step\<close>,
  \<^verbatim>\<open>render\<close>, \<^verbatim>\<open>change_color\<close> or \<^verbatim>\<open>close\<close> returns it to \<^verbatim>\<open>None\<close> once set; \<^verbatim>\<open>reset\<close> clears
  it, whenever the seed it uses is not negative.
\<close>

theorem C4_steps_beyond_done:
  "(\<forall>a r e'. step e a = (Inr r, e') \<longrightarrow>
      steps_beyond_done e' =
        (if done_flag r = 1
         then (case steps_beyond_done e of None \<Rightarrow> Some 0 | Some n \<Rightarrow> Some (n + 1))
         else steps_beyond_done e))
   \<and> (\<forall>a. steps_beyond_done e \<noteq> None \<longrightarrow> steps_beyond_done (snd (step e a)) \<noteq> None)
   \<and> steps_beyond_done (snd (render e)) = steps_beyond_done e
   \<and> steps_beyond_done (snd (change_color e)) = steps_beyond_done e
   \<and> steps_beyond_done (close e) = steps_beyond_done e
   \<and> (\<forall>S r u. 0 \<le> (if num_levels e = 0 then r else offset e) \<longrightarrow>
         steps_beyond_done (snd (reset S r u e)) = None)"
proof -
  have "steps_beyond_done e' =
        (if done_flag r = 1
         then (case steps_beyond_done e of None \<Rightarrow> Some 0 | Some n \<Rightarrow> Some (n + 1))
         else steps_beyond_done e)" if "step e a = (Inr r, e')" for a r e'
    using step_Inr_facts(1) [OF that] by (simp add: next_steps_beyond_done_def)
  then show ?thesis
    using step_keeps_steps_beyond_done [of e] reset_steps_beyond_done [of e]
    by (simp add: render_fields change_color_fields close_fields)
qed

text \<open>
  C4 as stated fails: from \<open>edge_env\<close> the first push reports done and sets the count to 0,
  the second call does not report done and leaves the count at 0 instead of 1.
\<close>

theorem C4_counterexample:
  "steps_beyond_done edge_env = None
   \<and> map done_flag (fst (steps edge_env [0, 0])) = [1, 0]
   \<and> steps_beyond_done (snd (steps edge_env [0])) = Some 0
   \<and> steps_beyond_done (snd (steps edge_env [0, 0])) = Some 0"
proof -
  obtain r1 e1 r2 e2 where
    "steps edge_env [0, 0] = ([r1, r2], e2)" "steps edge_env [0] = ([r1], e1)"
    "done_flag r1 = 1" "done_flag r2 = 0"
    "steps_beyond_done e1 = Some 0" "steps_beyond_done e2 = Some 0"
    using edge_env_run by metis
  then show ?thesis
    by (simp add: edge_env_def fresh_env_def)
qed

theorem C4_steps_beyond_done_witness:
  "steps_beyond_done far_env = None
   \<and> map done_flag (fst (steps far_env [0, 0])) = [1, 1]
   \<and> steps_beyond_done (snd (steps far_env [0])) = Some 0
   \<and> steps_beyond_done (snd (steps far_env [0, 0])) = Some 1
   \<and> steps_beyond_done (snd (reset zero_stream 0 (0, 0, 0, 0) (snd (steps far_env [0, 0])))) = None"
proof -
  have sbd: "steps_beyond_done far_env = None" "state far_env = Some (3, 0, 0, 0)"
    "viewer far_env = None" "offset far_env = 0" "num_levels far_env = 1"
    by (simp_all add: far_env_def fresh_env_def)
  obtain r1 e1 where s1: "step far_env 0 = (Inr r1, e1)"
    using step_succeeds [of 0 far_env] sbd by auto
  have d1: "done_flag r1 = 1"
    using step_Inr_state(2) [OF s1 sbd(2)] by (simp add: physics_upright terminal_iff)
  have st1: "state e1 = Some (3, - 8 / 41, 0, 6 / 205)"
    using step_Inr_state(1) [OF s1 sbd(2)] by (simp add: physics_upright)
  have sbd1: "steps_beyond_done e1 = Some 0"
    using C4_steps_beyond_done [of far_env] s1 d1 sbd(1) by simp
  have "geoms e1 \<noteq> None"
    using s1 by (rule step_Inr_geoms)
  then obtain r2 e2 where s2: "step e1 0 = (Inr r2, e2)"
    using step_succeeds [of 0 e1] st1 by auto
  have d2: "done_flag r2 = 1"
    using step_Inr_state(2) [OF s2 st1] by (simp add: physics_upright terminal_iff)
  have sbd2: "steps_beyond_done e2 = Some 1"
    using C4_steps_beyond_done [of e1] s2 d2 sbd1 by simp
  have off: "offset e2 = 0" "num_levels e2 = 1"
    using step_fields(1,2) [of far_env 0] step_fields(1,2) [of e1 0] s1 s2 sbd(4,5)
    by simp_all
  have "steps_beyond_done (snd (reset zero_stream 0 (0, 0, 0, 0) e2)) = None"
    using C4_steps_beyond_done [of e2] off by simp
  then show ?thesis
    using s1 s2 d1 d2 sbd1 sbd2 sbd(1) by simp
qed

lemma render_astype_colors:
  assumes "render_astype e = (Inr im, e')" "viewer e \<noteq> None" "geoms e = Some gs"
  shows "scene_colors im = scene_colors gs"
  using assms
  by (auto simp add: render_astype_def render_def Let_def scene_colors_def
      split: option.splits prod.splits sum.splits)

lemma render_astype_viewer:
  assumes "render_astype e = (Inr im, e')"
  shows "viewer e' \<noteq> None"
  using assms
  by (auto simp add: render_astype_def render_def Let_def build_viewer_fields
      split: option.splits prod.splits sum.splits if_splits)

lemma change_color_Inr_geoms:
  assumes "change_color e = (Inr x, e')"
  shows "\<exists>gs. geoms e' = Some gs \<and> scene_colors gs = map rgb_of (palette e')"
  using assms
  by (auto simp add: change_color_def split_def Let_def scene_colors_def palette_def
      split: option.splits)

lemma render_astype_palette: "palette (snd (render_astype e)) = palette e"
  by (simp add: palette_def render_astype_fields)

lemma reset_Inr_image:
  assumes "reset S r u e = (Inr im, e')"
  shows "scene_colors im = map rgb_of (palette e')"
proof -
  let ?sd = "(if num_levels e = 0 then r else offset e)"
  let ?e1 = "reseeded S ?sd u e"
  have unf: "reset S r u e =
     (case render_astype ?e1 of
        (Inl err, e2) \<Rightarrow> (Inl err, e2)
      | (Inr im0, e2) \<Rightarrow>
          (case change_color e2 of
             (Inl err, e3) \<Rightarrow> (Inl err, e3)
           | (Inr _, e3) \<Rightarrow> render_astype e3))"
    using reset_unfold [of e r S u] reset_Inr(1) [OF assms] by simp
  obtain res2 e2 where r2: "render_astype ?e1 = (res2, e2)"
    by (cases "render_astype ?e1") auto
  obtain res3 e3 where r3: "change_color e2 = (res3, e3)"
    by (cases "change_color e2") auto
  have last: "render_astype e3 = (Inr im, e')"
    using assms r2 r3 unfolding unf by (cases res2; cases res3) simp_all
  obtain im0 where res2: "res2 = Inr im0"
    using assms r2 unfolding unf by (cases res2) simp_all
  obtain x where res3: "res3 = Inr x"
    using assms r2 r3 res2 unfolding unf by (cases res3) simp_all
  have "viewer e2 \<noteq> None"
    using r2 res2 render_astype_viewer by blast
  then have v3: "viewer e3 \<noteq> None"
    using change_color_fields(6) [of e2] r3 by simp
  obtain gs where gs: "geoms e3 = Some gs" "scene_colors gs = map rgb_of (palette e3)"
    using change_color_Inr_geoms r3 res3 by blast
  have "scene_colors im = scene_colors gs"
    using render_astype_colors [OF last v3 gs(1)] .
  moreover have "palette e' = palette e3"
    using render_astype_palette [of e3] last by simp
  ultimately show ?thesis
    using gs(2) by simp
qed

text \<open>
  C5. For instances with \<^verbatim>\<open>num_levels\<close> not 0 and the same start level, any two \<^verbatim>\<open>reset\<close>
  calls that return use the same seed and give the same five colours, in the attributes
  and in the scene returned, whatever the earlier history and the initial state drawn.
\<close>

theorem C5_reset_same_seed_same_palette:
  assumes "num_levels e1 \<noteq> 0" and "num_levels e2 \<noteq> 0" and "offset e1 = offset e2"
    and "reset S r1 u1 e1 = (Inr im1, e1')" and "reset S r2 u2 e2 = (Inr im2, e2')"
  shows "seed e1' = seed e2'
         \<and> polecolor e1' = polecolor e2' \<and> cartcolor e1' = cartcolor e2'
         \<and> axlecolor e1' = axlecolor e2' \<and> trackcolor e1' = trackcolor e2'
         \<and> backgroundcolor e1' = backgroundcolor e2'
         \<and> scene_colors im1 = scene_colors im2"
proof -
  have "seed e1' = seed e2'"
    and p: "polecolor e1' = polecolor e2'" "cartcolor e1' = cartcolor e2'"
      "axlecolor e1' = axlecolor e2'" "trackcolor e1' = trackcolor e2'"
      "backgroundcolor e1' = backgroundcolor e2'"
    using reset_Inr(2-7) [OF assms(4)] reset_Inr(2-7) [OF assms(5)] assms(1-3)
    by simp_all
  moreover have "scene_colors im1 = scene_colors im2"
    using reset_Inr_image [OF assms(4)] reset_Inr_image [OF assms(5)] p
    by (simp add: palette_def)
  ultimately show ?thesis by simp
qed

theorem C5_reset_same_seed_same_palette_witness:
  "num_levels fresh_env \<noteq> 0
   \<and> returned (reset zero_stream 5 (0, 0, 0, 0) fresh_env) \<noteq> None
   \<and> returned (reset zero_stream 7 (1 / 100, 0, 0, 0) fresh_env) \<noteq> None
   \<and> seed (snd (reset zero_stream 5 (0, 0, 0, 0) fresh_env))
       = seed (snd (reset zero_stream 7 (1 / 100, 0, 0, 0) fresh_env))
   \<and> polecolor (snd (reset zero_stream 5 (0, 0, 0, 0) fresh_env))
       = polecolor (snd (reset zero_stream 7 (1 / 100, 0, 0, 0) fresh_env))
   \<and> backgroundcolor (snd (reset zero_stream 5 (0, 0, 0, 0) fresh_env))
       = backgroundcolor (snd (reset zero_stream 7 (1 / 100, 0, 0, 0) fresh_env))"
proof -
  have f: "num_levels fresh_env \<noteq> 0" "offset fresh_env = 0" "viewer fresh_env = None"
    by (simp_all add: fresh_env_def)
  obtain im1 e1' where r1: "reset zero_stream 5 (0, 0, 0, 0) fresh_env = (Inr im1, e1')"
    using reset_succeeds [of fresh_env 5 zero_stream "(0, 0, 0, 0)"] f by auto
  obtain im2 e2' where r2: "reset zero_stream 7 (1 / 100, 0, 0, 0) fresh_env = (Inr im2, e2')"
    using reset_succeeds [of fresh_env 7 zero_stream "(1 / 100, 0, 0, 0)"] f by auto
  show ?thesis
    using C5_reset_same_seed_same_palette [OF f(1) f(1) refl r1 r2] r1 r2 f(1)
    by (simp add: returned_def)
qed

end
